theory Spec2Isabelle
  imports Complex_Main
begin

section \<open>Values, arrays and errors\<close>

text \<open>
  The routine under study is \<^verbatim>\<open>my_custom_lc_cleaner(tpf)\<close> of the tutorial notebook
  \<^verbatim>\<open>docs/source/tutorials/1.05-interact-with-lightcurves-and-tpf.ipynb\<close>:

  \<^verbatim>\<open>
  def my_custom_lc_cleaner(tpf):
      aper_mask = tpf.pipeline_mask * False
      aper_mask[1:-1, 1:-1] = True
      back_mask = ~aper_mask & ~np.all(np.isnan(tpf.flux), axis=0)
      lc_aper = tpf.to_lightcurve(aperture_mask=aper_mask) / aper_mask.sum()
      lc_back = tpf.to_lightcurve(aperture_mask=back_mask) / back_mask.sum()
      lc_bg_sub = lc_aper - lc_back.flux
      lc_cln= lc_bg_sub.remove_outliers()
      return lc_cln
  \<close>

  Flux values are double-precision floats in the source. Here a float is a real number,
  one of the two infinities, or NaN; arithmetic propagates NaN and the infinities as
  IEEE 754 does and is exact on finite values (rounding is not modelled).
\<close>

datatype float64 = NaN | PInf | NInf | Val real

datatype py_error = ValueError | IndexError | ZeroDivisionError | TypeError

text \<open>
  A numpy array of two dimensions: its shape and its rows. A three-dimensional array
  (time, row, column) is its shape and its list of frames. The shape is kept apart from
  the data, since an array of shape \<open>(0, W)\<close> has no row to read the width from.
\<close>

datatype 'a arr2 = Arr2 (nrows: nat) (ncols: nat) (cells: "'a list list")

datatype 'a arr3 = Arr3 (ntime: nat) (nrows3: nat) (ncols3: nat) (frames: "'a list list list")

definition rect :: "nat \<Rightarrow> nat \<Rightarrow> 'a list list \<Rightarrow> bool" where
  "rect h w rs = (length rs = h \<and> list_all (\<lambda>r. length r = w) rs)"

definition wf2 :: "'a arr2 \<Rightarrow> bool" where
  "wf2 a = rect (nrows a) (ncols a) (cells a)"

definition wf3 :: "'a arr3 \<Rightarrow> bool" where
  "wf3 c = (length (frames c) = ntime c \<and> list_all (rect (nrows3 c) (ncols3 c)) (frames c))"

definition cell :: "'a arr2 \<Rightarrow> nat \<Rightarrow> nat \<Rightarrow> 'a" where
  "cell a i j = cells a ! i ! j"

definition cell3 :: "'a arr3 \<Rightarrow> nat \<Rightarrow> nat \<Rightarrow> nat \<Rightarrow> 'a" where
  "cell3 c t i j = frames c ! t ! i ! j"

section \<open>The numpy operations the routine uses\<close>

text \<open>\<^verbatim>\<open>np.isnan\<close> on one float, and elementwise on a cube.\<close>

fun isnan :: "float64 \<Rightarrow> bool" where
  "isnan NaN = True"
| "isnan _ = False"

definition np_isnan :: "float64 arr3 \<Rightarrow> bool arr3" where
  "np_isnan c = Arr3 (ntime c) (nrows3 c) (ncols3 c) (map (map (map isnan)) (frames c))"

text \<open>
  \<^verbatim>\<open>np.all(c, axis=0)\<close>: the result has the spatial shape of the cube, and a location is
  true when it is true in every frame (so it is true everywhere when there is no frame).
\<close>

definition np_all_axis0 :: "bool arr3 \<Rightarrow> bool arr2" where
  "np_all_axis0 c = Arr2 (nrows3 c) (ncols3 c)
     (map (\<lambda>i. map (\<lambda>j. list_all (\<lambda>fr. fr ! i ! j) (frames c)) [0..<ncols3 c]) [0..<nrows3 c])"

text \<open>\<^verbatim>\<open>~a\<close> on a boolean array.\<close>

definition np_invert :: "bool arr2 \<Rightarrow> bool arr2" where
  "np_invert a = Arr2 (nrows a) (ncols a) (map (map Not) (cells a))"

text \<open>
  \<^verbatim>\<open>a * False\<close> on a boolean array: numpy multiplies booleans as a conjunction and
  returns a new boolean array of the same shape.
\<close>

definition mul_False :: "bool arr2 \<Rightarrow> bool arr2" where
  "mul_False a = Arr2 (nrows a) (ncols a) (map (map (\<lambda>b. b \<and> False)) (cells a))"

text \<open>
  The slice \<^verbatim>\<open>1:-1\<close> along an axis of length \<open>n\<close> selects the indices from 1 up to,
  not including, \<open>n - 1\<close>; it is empty when \<open>n \<le> 2\<close>.
\<close>

definition slice_1_m1 :: "nat \<Rightarrow> nat list" where
  "slice_1_m1 n = [1..<n - 1]"

text \<open>\<^verbatim>\<open>a[1:-1, 1:-1] = True\<close>: the cells in both slices are overwritten, the rest are kept.\<close>

definition setitem_interior :: "bool arr2 \<Rightarrow> bool arr2" where
  "setitem_interior a = Arr2 (nrows a) (ncols a)
     (map (\<lambda>(i, row).
        map (\<lambda>(j, v). if i \<in> set (slice_1_m1 (nrows a)) \<and> j \<in> set (slice_1_m1 (ncols a))
                        then True else v)
            (enumerate 0 row))
        (enumerate 0 (cells a)))"

text \<open>
  Broadcasting of two axis lengths: equal lengths stay, a length of 1 is stretched to
  the other, anything else is numpy's \<^verbatim>\<open>ValueError\<close>.
\<close>

definition bdim :: "nat \<Rightarrow> nat \<Rightarrow> nat option" where
  "bdim m n = (if m = n then Some m else if m = 1 then Some n else if n = 1 then Some m else None)"

definition stretch :: "nat \<Rightarrow> 'a list \<Rightarrow> 'a list" where
  "stretch n xs = (case xs of [x] \<Rightarrow> replicate n x | _ \<Rightarrow> xs)"

definition broadcast_to :: "nat \<Rightarrow> nat \<Rightarrow> 'a arr2 \<Rightarrow> 'a arr2" where
  "broadcast_to h w a = Arr2 h w (stretch h (map (stretch w) (cells a)))"

text \<open>\<^verbatim>\<open>a & b\<close> on boolean arrays, with broadcasting.\<close>

definition np_and :: "bool arr2 \<Rightarrow> bool arr2 \<Rightarrow> py_error + bool arr2" where
  "np_and a b =
     (case (bdim (nrows a) (nrows b), bdim (ncols a) (ncols b)) of
        (Some h, Some w) \<Rightarrow>
          Inr (Arr2 h w (map2 (map2 (\<and>)) (cells (broadcast_to h w a)) (cells (broadcast_to h w b))))
      | _ \<Rightarrow> Inl ValueError)"

text \<open>\<^verbatim>\<open>a.sum()\<close> on a boolean array: the number of true cells.\<close>

definition np_sum :: "bool arr2 \<Rightarrow> nat" where
  "np_sum a = length (filter (\<lambda>b. b) (concat (cells a)))"

section \<open>The target pixel file and the Aperture Partitioner\<close>

record tpf =
  pipeline_mask :: "bool arr2"
  flux :: "float64 arr3"
  time :: "real list"

definition wf_tpf :: "tpf \<Rightarrow> bool" where
  "wf_tpf t = (wf2 (pipeline_mask t) \<and> wf3 (flux t)
     \<and> nrows3 (flux t) = nrows (pipeline_mask t) \<and> ncols3 (flux t) = ncols (pipeline_mask t)
     \<and> length (time t) = ntime (flux t))"

text \<open>
  The first two statements of the routine: \<^verbatim>\<open>aper_mask = tpf.pipeline_mask * False\<close>
  and \<^verbatim>\<open>aper_mask[1:-1, 1:-1] = True\<close>.
\<close>

definition aper_mask :: "tpf \<Rightarrow> bool arr2" where
  "aper_mask t = setitem_interior (mul_False (pipeline_mask t))"

text \<open>\<^verbatim>\<open>back_mask = ~aper_mask & ~np.all(np.isnan(tpf.flux), axis=0)\<close>\<close>

definition back_mask :: "tpf \<Rightarrow> py_error + bool arr2" where
  "back_mask t = np_and (np_invert (aper_mask t)) (np_invert (np_all_axis0 (np_isnan (flux t))))"

section \<open>Float arithmetic\<close>

text \<open>
  The arithmetic the light curve operations below are built from: negation, addition and
  subtraction of two floats, the sum of a list from 0, and the division by a count.
\<close>

fun fneg :: "float64 \<Rightarrow> float64" where
  "fneg NaN = NaN"
| "fneg PInf = NInf"
| "fneg NInf = PInf"
| "fneg (Val x) = Val (- x)"

fun fadd :: "float64 \<Rightarrow> float64 \<Rightarrow> float64" where
  "fadd NaN _ = NaN"
| "fadd _ NaN = NaN"
| "fadd PInf NInf = NaN"
| "fadd NInf PInf = NaN"
| "fadd PInf _ = PInf"
| "fadd _ PInf = PInf"
| "fadd NInf _ = NInf"
| "fadd _ NInf = NInf"
| "fadd (Val x) (Val y) = Val (x + y)"

definition fsub :: "float64 \<Rightarrow> float64 \<Rightarrow> float64" where
  "fsub x y = fadd x (fneg y)"

text \<open>Division of a float by a positive count.\<close>

fun fdiv :: "float64 \<Rightarrow> nat \<Rightarrow> float64" where
  "fdiv (Val x) n = Val (x / real n)"
| "fdiv x n = x"

definition fsum :: "float64 list \<Rightarrow> float64" where
  "fsum xs = foldl fadd (Val 0) xs"

section \<open>Light curves: the Flux Aggregator and the Background Subtractor\<close>

record lightcurve =
  lc_time :: "real list"
  lc_flux :: "float64 list"

text \<open>\<^verbatim>\<open>frame[mask]\<close>: the cells of a frame at the true locations of the mask, in row-major order.\<close>

definition masked :: "bool arr2 \<Rightarrow> 'a list list \<Rightarrow> 'a list" where
  "masked m fr = map snd (filter fst (zip (concat (cells m)) (concat fr)))"

text \<open>
  Modelled from the spec: the method \<^verbatim>\<open>to_lightcurve\<close> of the target pixel file is not
  part of the notebook. The spec (4.2, 6) gives the aperture photometry as, per time
  sample, the sum of flux over all true mask locations, and lists a shape mismatch between
  mask and cube as a failure.
\<close>

definition to_lightcurve :: "tpf \<Rightarrow> bool arr2 \<Rightarrow> py_error + lightcurve" where
  "to_lightcurve t m =
     (if nrows m = nrows3 (flux t) \<and> ncols m = ncols3 (flux t)
      then Inr \<lparr>lc_time = time t, lc_flux = map (\<lambda>fr. fsum (masked m fr)) (frames (flux t))\<rparr>
      else Inl IndexError)"

text \<open>
  Modelled from the spec: the division of a light curve by a number is not part of the
  notebook. The spec (4.2) divides the flux of every sample by the count of true cells and
  says that a count of zero is a division by zero, which no code guards; that division is
  the error value here.
\<close>

definition lc_div :: "lightcurve \<Rightarrow> nat \<Rightarrow> py_error + lightcurve" where
  "lc_div lc n =
     (if n = 0 then Inl ZeroDivisionError
      else Inr (lc\<lparr>lc_flux := map (\<lambda>x. fdiv x n) (lc_flux lc)\<rparr>))"

text \<open>The notebook's expression \<^verbatim>\<open>tpf.to_lightcurve(aperture_mask=m) / m.sum()\<close>.\<close>

definition flux_aggregator :: "tpf \<Rightarrow> bool arr2 \<Rightarrow> py_error + lightcurve" where
  "flux_aggregator t m =
     (case to_lightcurve t m of Inl e \<Rightarrow> Inl e | Inr lc \<Rightarrow> lc_div lc (np_sum m))"

text \<open>
  Modelled from the spec: the subtraction of a flux array from a light curve
  (\<^verbatim>\<open>lc_aper - lc_back.flux\<close>) is not part of the notebook. The spec (4.3, 7) gives a new
  series whose flux at each cadence is the difference at that cadence index, and lists
  misaligned cadence counts as a failure.
\<close>

definition lc_sub :: "lightcurve \<Rightarrow> float64 list \<Rightarrow> py_error + lightcurve" where
  "lc_sub lc ys =
     (if length ys = length (lc_flux lc)
      then Inr (lc\<lparr>lc_flux := map2 fsub (lc_flux lc) ys\<rparr>)
      else Inl ValueError)"

text \<open>The negation of a series that the spec's antisymmetry property speaks of.\<close>

definition lc_neg :: "lightcurve \<Rightarrow> lightcurve" where
  "lc_neg lc = lc\<lparr>lc_flux := map fneg (lc_flux lc)\<rparr>"

text \<open>
  The last four statements of the routine, given the two masks. The outlier removal
  belongs to the light curve class and is not part of the notebook; it is a parameter.
\<close>

definition photometry ::
  "(lightcurve \<Rightarrow> lightcurve) \<Rightarrow> tpf \<Rightarrow> bool arr2 \<Rightarrow> bool arr2 \<Rightarrow> py_error + lightcurve" where
  "photometry remove_outliers t am bm =
     (case flux_aggregator t am of Inl e \<Rightarrow> Inl e | Inr lc_aper \<Rightarrow>
       (case flux_aggregator t bm of Inl e \<Rightarrow> Inl e | Inr lc_back \<Rightarrow>
         (case lc_sub lc_aper (lc_flux lc_back) of Inl e \<Rightarrow> Inl e | Inr lc_bg_sub \<Rightarrow>
            Inr (remove_outliers lc_bg_sub))))"

definition my_custom_lc_cleaner :: "(lightcurve \<Rightarrow> lightcurve) \<Rightarrow> tpf \<Rightarrow> py_error + lightcurve" where
  "my_custom_lc_cleaner remove_outliers t =
     (case back_mask t of Inl e \<Rightarrow> Inl e
      | Inr bm \<Rightarrow> photometry remove_outliers t (aper_mask t) bm)"

section \<open>The routine on a store of arrays\<close>

text \<open>
  The second statement of the routine writes into an array in place. To see what it can
  reach, the arrays live in a store, an address is an index into it, and the target pixel
  file holds the addresses of its mask and its cube. \<^verbatim>\<open>tpf.pipeline_mask * False\<close>
  allocates a new array; the slice assignment updates the store at the address bound to
  \<^verbatim>\<open>aper_mask\<close>; the later statements read the store as it is then. The temporaries of an
  expression and the light curves are fresh objects that nothing else refers to, and are
  left out of the store.
\<close>

datatype obj = BoolArr "bool arr2" | FloatArr "float64 arr3"

type_synonym heap = "obj list"

record tpf_obj =
  pipeline_mask_at :: nat
  flux_at :: nat
  time_of :: "real list"

definition alloc :: "heap \<Rightarrow> obj \<Rightarrow> nat \<times> heap" where
  "alloc h v = (length h, h @ [v])"

definition read_tpf :: "heap \<Rightarrow> tpf_obj \<Rightarrow> tpf option" where
  "read_tpf h r =
     (if pipeline_mask_at r < length h \<and> flux_at r < length h
      then (case (h ! pipeline_mask_at r, h ! flux_at r) of
              (BoolArr m, FloatArr c) \<Rightarrow> Some \<lparr>pipeline_mask = m, flux = c, time = time_of r\<rparr>
            | _ \<Rightarrow> None)
      else None)"

definition setitem_interior_at :: "nat \<Rightarrow> heap \<Rightarrow> heap" where
  "setitem_interior_at a h =
     (if a < length h
      then (case h ! a of BoolArr m \<Rightarrow> h[a := BoolArr (setitem_interior m)] | _ \<Rightarrow> h)
      else h)"

definition read_mask :: "heap \<Rightarrow> nat \<Rightarrow> bool arr2 option" where
  "read_mask h a =
     (if a < length h then (case h ! a of BoolArr m \<Rightarrow> Some m | _ \<Rightarrow> None) else None)"

definition cleaner_on_heap ::
  "(lightcurve \<Rightarrow> lightcurve) \<Rightarrow> tpf_obj \<Rightarrow> heap \<Rightarrow> (py_error + lightcurve) \<times> heap" where
  "cleaner_on_heap remove_outliers r h =
     (case read_tpf h r of
        None \<Rightarrow> (Inl TypeError, h)
      | Some t0 \<Rightarrow>
          (case alloc h (BoolArr (mul_False (pipeline_mask t0))) of (a, h1) \<Rightarrow>
           let h2 = setitem_interior_at a h1 in
           (case (read_tpf h2 r, read_mask h2 a) of
              (Some t, Some am) \<Rightarrow>
                (case np_and (np_invert am) (np_invert (np_all_axis0 (np_isnan (flux t)))) of
                   Inl e \<Rightarrow> (Inl e, h2)
                 | Inr bm \<Rightarrow>
                     (case alloc h2 (BoolArr bm) of (b, h3) \<Rightarrow>
                        (photometry remove_outliers t am bm, h3)))
            | _ \<Rightarrow> (Inl TypeError, h2))))"

section \<open>The spec's description of the masks\<close>

text \<open>
  The spec's words for the inner aperture, "the mask eroded by one pixel on each border"
  (or "the mask minus its border ring"): a cell stays true when it is true in the mask and
  lies in neither the first nor the last row or column.
\<close>

definition interior :: "nat \<Rightarrow> nat \<Rightarrow> nat \<Rightarrow> nat \<Rightarrow> bool" where
  "interior h w i j = (1 \<le> i \<and> i + 1 < h \<and> 1 \<le> j \<and> j + 1 < w)"

definition eroded :: "bool arr2 \<Rightarrow> bool arr2" where
  "eroded m = Arr2 (nrows m) (ncols m)
     (map (\<lambda>i. map (\<lambda>j. cell m i j \<and> interior (nrows m) (ncols m) i j) [0..<ncols m])
          [0..<nrows m])"

text \<open>A location that is NaN in every time sample ("missing", "all-time-invalid").\<close>

definition all_time_invalid :: "float64 arr3 \<Rightarrow> nat \<Rightarrow> nat \<Rightarrow> bool" where
  "all_time_invalid c i j = list_all (\<lambda>k. isnan (cell3 c k i j)) [0..<ntime c]"

text \<open>The spec's words for the background ring: "all non-source, non-missing pixels".\<close>

definition non_source_non_missing :: "tpf \<Rightarrow> bool arr2" where
  "non_source_non_missing t = Arr2 (nrows (pipeline_mask t)) (ncols (pipeline_mask t))
     (map (\<lambda>i. map (\<lambda>j. \<not> cell (pipeline_mask t) i j \<and> \<not> all_time_invalid (flux t) i j)
                [0..<ncols (pipeline_mask t)])
          [0..<nrows (pipeline_mask t)])"

definition disjoint_masks :: "bool arr2 \<Rightarrow> bool arr2 \<Rightarrow> bool" where
  "disjoint_masks a b =
     list_all (\<lambda>i. list_all (\<lambda>j. \<not> (cell a i j \<and> cell b i j)) [0..<ncols a]) [0..<nrows a]"

text \<open>A cube with no NaN at all ("no invalid pixels").\<close>

definition no_nan :: "float64 arr3 \<Rightarrow> bool" where
  "no_nan c = list_all (list_all (list_all (\<lambda>x. \<not> isnan x))) (frames c)"

text \<open>Every true cell of a mask lies in the interior; every interior cell of a mask is true.\<close>

definition inside_border :: "bool arr2 \<Rightarrow> bool" where
  "inside_border m =
     list_all (\<lambda>i. list_all (\<lambda>j. cell m i j \<longrightarrow> interior (nrows m) (ncols m) i j) [0..<ncols m])
       [0..<nrows m]"

definition covers_interior :: "bool arr2 \<Rightarrow> bool" where
  "covers_interior m =
     list_all (\<lambda>i. list_all (\<lambda>j. interior (nrows m) (ncols m) i j \<longrightarrow> cell m i j) [0..<ncols m])
       [0..<nrows m]"

definition const_mask :: "nat \<Rightarrow> nat \<Rightarrow> bool \<Rightarrow> bool arr2" where
  "const_mask h w b = Arr2 h w (replicate h (replicate w b))"

section \<open>Sample inputs\<close>

text \<open>Three cadences of 3 by 3 pixels, no NaN anywhere, every cell of the mask true.\<close>

definition cube3 :: "float64 arr3" where
  "cube3 = Arr3 3 3 3
     [[[Val 1, Val 2, Val 3], [Val 4, Val 5, Val 6], [Val 7, Val 8, Val 9]],
      [[Val 11, Val 12, Val 13], [Val 14, Val 15, Val 16], [Val 17, Val 18, Val 19]],
      [[Val 21, Val 22, Val 23], [Val 24, Val 25, Val 26], [Val 27, Val 28, Val 29]]]"

definition tpf3 :: tpf where
  "tpf3 = \<lparr>pipeline_mask = const_mask 3 3 True, flux = cube3, time = [0, 1, 2]\<rparr>"

text \<open>The same cube under a mask with no true cell, and under a mask of one true cell.\<close>

definition tpf3_dark :: tpf where
  "tpf3_dark = \<lparr>pipeline_mask = const_mask 3 3 False, flux = cube3, time = [0, 1, 2]\<rparr>"

definition one_cell :: "bool arr2" where
  "one_cell = Arr2 3 3 [[False, False, False], [False, False, True], [False, False, False]]"

definition ring3 :: "bool arr2" where
  "ring3 = Arr2 3 3 [[True, True, True], [True, False, True], [True, True, True]]"

text \<open>
  Two cadences of 3 by 4 pixels: location (0,0) is NaN in both, location (0,1) in one of
  them; the mask is true at the two interior cells only.
\<close>

definition tpf_nan :: tpf where
  "tpf_nan = \<lparr>pipeline_mask =
       Arr2 3 4 [[False, False, False, False], [False, True, True, False], [False, False, False, False]],
     flux = Arr3 2 3 4
       [[[NaN, NaN, Val 1, Val 1], [Val 1, Val 9, Val 8, Val 1], [Val 1, Val 1, Val 1, Val 1]],
        [[NaN, Val 2, Val 2, Val 2], [Val 2, Val 7, Val 6, Val 2], [Val 2, Val 2, Val 2, Val 2]]],
     time = [0, 1]\<rparr>"

text \<open>A grid of one row and two columns, one cadence.\<close>

definition tpf_thin :: tpf where
  "tpf_thin = \<lparr>pipeline_mask = Arr2 1 2 [[True, False]],
     flux = Arr3 1 1 2 [[[Val 3, Val 4]]], time = [0]\<rparr>"

text \<open>
  The sample with the all-false mask as a store of two arrays and a target pixel file that
  refers to them.
\<close>

definition heap3 :: heap where
  "heap3 = [BoolArr (const_mask 3 3 False), FloatArr cube3]"

definition tpf3_obj :: tpf_obj where
  "tpf3_obj = \<lparr>pipeline_mask_at = 0, flux_at = 1, time_of = [0, 1, 2]\<rparr>"

text \<open>Two light curves on the same three time stamps.\<close>

definition lc_a :: lightcurve where
  "lc_a = \<lparr>lc_time = [0, 1, 2], lc_flux = [Val 5, NaN, PInf]\<rparr>"

definition lc_b :: lightcurve where
  "lc_b = \<lparr>lc_time = [0, 1, 2], lc_flux = [Val 2, Val 1, PInf]\<rparr>"

section \<open>Shape and cells of the derived masks\<close>

lemma stretch_same: "length xs = n \<Longrightarrow> stretch n xs = xs"
  by (cases xs; cases "tl xs") (auto simp: stretch_def)

lemma rect_nth: "rect h w rs \<Longrightarrow> i < h \<Longrightarrow> length (rs ! i) = w"
  by (auto simp: rect_def list_all_length)

lemma aper_mask_nrows: "nrows (aper_mask t) = nrows (pipeline_mask t)"
  by (simp add: aper_mask_def setitem_interior_def mul_False_def)

lemma aper_mask_ncols: "ncols (aper_mask t) = ncols (pipeline_mask t)"
  by (simp add: aper_mask_def setitem_interior_def mul_False_def)

lemma aper_mask_length: "length (cells (aper_mask t)) = length (cells (pipeline_mask t))"
  by (simp add: aper_mask_def setitem_interior_def mul_False_def enumerate_eq_zip)

lemma aper_mask_row_length:
  "i < length (cells (pipeline_mask t)) \<Longrightarrow>
   length (cells (aper_mask t) ! i) = length (cells (pipeline_mask t) ! i)"
  by (simp add: aper_mask_def setitem_interior_def mul_False_def nth_enumerate_eq)

lemma aper_mask_wf: "wf2 (pipeline_mask t) \<Longrightarrow> wf2 (aper_mask t)"
  unfolding wf2_def rect_def list_all_length
  by (simp add: aper_mask_nrows aper_mask_ncols aper_mask_length aper_mask_row_length)

lemma aper_mask_cell:
  assumes "wf2 (pipeline_mask t)" "i < nrows (pipeline_mask t)" "j < ncols (pipeline_mask t)"
  shows "cell (aper_mask t) i j =
         (1 \<le> i \<and> i + 1 < nrows (pipeline_mask t) \<and> 1 \<le> j \<and> j + 1 < ncols (pipeline_mask t))"
proof -
  have l: "i < length (cells (pipeline_mask t))" "j < length (cells (pipeline_mask t) ! i)"
    using assms by (auto simp: wf2_def rect_def list_all_length)
  then show ?thesis
    by (auto simp: cell_def aper_mask_def setitem_interior_def mul_False_def nth_enumerate_eq
        slice_1_m1_def)
qed

lemma np_and_same_shape:
  assumes "wf2 a" "wf2 b" "nrows b = nrows a" "ncols b = ncols a"
  shows "np_and a b = Inr (Arr2 (nrows a) (ncols a) (map2 (map2 (\<and>)) (cells a) (cells b)))"
proof -
  have "map (stretch (ncols a)) (cells a) = cells a"
    using assms(1) by (auto simp: wf2_def rect_def list_all_iff stretch_same intro: map_idI)
  moreover have "map (stretch (ncols a)) (cells b) = cells b"
    using assms(2,4) by (auto simp: wf2_def rect_def list_all_iff stretch_same intro: map_idI)
  ultimately show ?thesis
    using assms by (simp add: np_and_def bdim_def broadcast_to_def stretch_same wf2_def rect_def)
qed

lemma allnan_wf: "wf2 (np_invert (np_all_axis0 (np_isnan c)))"
  by (simp add: wf2_def rect_def np_invert_def np_all_axis0_def np_isnan_def list_all_iff)

lemma allnan_cell:
  assumes "wf3 c" "i < nrows3 c" "j < ncols3 c"
  shows "cell (np_all_axis0 (np_isnan c)) i j = (\<forall>k<ntime c. isnan (cell3 c k i j))"
proof -
  have "\<And>k. k < ntime c \<Longrightarrow> i < length (frames c ! k) \<and> j < length (frames c ! k ! i)"
    using assms by (auto simp: wf3_def rect_def list_all_length)
  then show ?thesis
    using assms(1,2,3) by (auto simp: cell_def cell3_def np_all_axis0_def np_isnan_def list_all_length wf3_def)
qed

lemma arr2_eqI:
  assumes "wf2 a" "wf2 b" "nrows a = nrows b" "ncols a = ncols b"
    and "\<And>i j. i < nrows a \<Longrightarrow> j < ncols a \<Longrightarrow> cell a i j = cell b i j"
  shows "a = b"
proof -
  have "cells a = cells b"
  proof (rule nth_equalityI)
    show "length (cells a) = length (cells b)"
      using assms(1-3) by (simp add: wf2_def rect_def)
  next
    fix i assume i: "i < length (cells a)"
    then have ia: "i < nrows a" using assms(1) by (simp add: wf2_def rect_def)
    have la: "length (cells a ! i) = ncols a"
      using assms(1) ia by (simp add: wf2_def rect_nth)
    have lb: "length (cells b ! i) = ncols a"
      using assms(2,3,4) ia by (simp add: wf2_def rect_nth)
    show "cells a ! i = cells b ! i"
      by (rule nth_equalityI) (use la lb ia assms(5) in \<open>auto simp: cell_def\<close>)
  qed
  with assms(3,4) show ?thesis by (simp add: arr2.expand)
qed

lemma aper_mask_interior:
  assumes "wf2 (pipeline_mask t)" "i < nrows (pipeline_mask t)" "j < ncols (pipeline_mask t)"
  shows "cell (aper_mask t) i j = interior (nrows (pipeline_mask t)) (ncols (pipeline_mask t)) i j"
  using aper_mask_cell[OF assms] by (simp add: interior_def)

lemma all_time_invalid_iff:
  "all_time_invalid c i j = (\<forall>k<ntime c. isnan (cell3 c k i j))"
  by (auto simp: all_time_invalid_def list_all_iff)

lemma back_mask_cells:
  assumes "wf_tpf t"
  shows "\<exists>bm. back_mask t = Inr bm \<and> wf2 bm
           \<and> nrows bm = nrows (pipeline_mask t) \<and> ncols bm = ncols (pipeline_mask t)
           \<and> (\<forall>i<nrows (pipeline_mask t). \<forall>j<ncols (pipeline_mask t).
                 cell bm i j = (\<not> cell (aper_mask t) i j \<and> \<not> all_time_invalid (flux t) i j))"
proof -
  let ?pm = "pipeline_mask t"
  let ?a = "np_invert (aper_mask t)"
  let ?n = "np_all_axis0 (np_isnan (flux t))"
  let ?b = "np_invert ?n"
  let ?bm = "Arr2 (nrows ?pm) (ncols ?pm) (map2 (map2 (\<and>)) (cells ?a) (cells ?b))"
  have wfp: "wf2 ?pm" and wfc: "wf3 (flux t)"
    and sh: "nrows3 (flux t) = nrows ?pm" "ncols3 (flux t) = ncols ?pm"
    using assms by (simp_all add: wf_tpf_def)
  have wfa: "wf2 ?a"
    using aper_mask_wf[OF wfp] by (simp add: wf2_def rect_def np_invert_def list_all_iff)
  have sha: "nrows ?a = nrows ?pm" "ncols ?a = ncols ?pm"
    by (simp_all add: np_invert_def aper_mask_nrows aper_mask_ncols)
  have shb: "nrows ?b = nrows ?pm" "ncols ?b = ncols ?pm"
    using sh by (simp_all add: np_invert_def np_all_axis0_def np_isnan_def)
  have eq: "back_mask t = Inr ?bm"
    unfolding back_mask_def using np_and_same_shape[OF wfa allnan_wf] sha shb by simp
  have la: "length (cells ?a) = nrows ?pm" "length (cells ?b) = nrows ?pm"
    using wfa allnan_wf[of "flux t"] sha shb by (simp_all add: wf2_def rect_def)
  have ra: "\<And>i. i < nrows ?pm \<Longrightarrow> length (cells ?a ! i) = ncols ?pm"
    using wfa sha by (metis rect_nth wf2_def)
  have rb: "\<And>i. i < nrows ?pm \<Longrightarrow> length (cells ?b ! i) = ncols ?pm"
    using allnan_wf[of "flux t"] shb by (metis rect_nth wf2_def)
  have wfbm: "wf2 ?bm"
    using la ra rb by (simp add: wf2_def rect_def list_all_length)
  have cellbm: "cell ?bm i j = (\<not> cell (aper_mask t) i j \<and> \<not> all_time_invalid (flux t) i j)"
    if "i < nrows ?pm" "j < ncols ?pm" for i j
  proof -
    have "cell ?bm i j = (cell ?a i j \<and> cell ?b i j)"
      using that la ra rb by (simp add: cell_def)
    moreover have "cell ?a i j = (\<not> cell (aper_mask t) i j)"
      using that la ra by (simp add: cell_def np_invert_def)
    moreover have "cell ?b i j = (\<not> cell ?n i j)"
      using that la rb by (simp add: cell_def np_invert_def)
    moreover have "cell ?n i j = all_time_invalid (flux t) i j"
      using allnan_cell[OF wfc] that sh by (simp add: all_time_invalid_iff)
    ultimately show ?thesis by simp
  qed
  show ?thesis
    using eq wfbm cellbm by (intro exI[of _ ?bm]) simp
qed

lemma disjoint_masks_iff:
  "disjoint_masks a b = (\<forall>i<nrows a. \<forall>j<ncols a. \<not> (cell a i j \<and> cell b i j))"
  by (auto simp: disjoint_masks_def list_all_iff)

lemma inside_border_iff:
  "inside_border m = (\<forall>i<nrows m. \<forall>j<ncols m. cell m i j \<longrightarrow> interior (nrows m) (ncols m) i j)"
  by (auto simp: inside_border_def list_all_iff)

lemma covers_interior_iff:
  "covers_interior m = (\<forall>i<nrows m. \<forall>j<ncols m. interior (nrows m) (ncols m) i j \<longrightarrow> cell m i j)"
  by (auto simp: covers_interior_def list_all_iff)

lemma eroded_wf: "wf2 (eroded m)"
  by (simp add: eroded_def wf2_def rect_def list_all_iff)

lemma eroded_cell:
  "i < nrows m \<Longrightarrow> j < ncols m \<Longrightarrow>
   cell (eroded m) i j = (cell m i j \<and> interior (nrows m) (ncols m) i j)"
  by (simp add: eroded_def cell_def)

lemma aper_mask_shape_only:
  assumes "wf2 (pipeline_mask t1)" "wf2 (pipeline_mask t2)"
    "nrows (pipeline_mask t1) = nrows (pipeline_mask t2)"
    "ncols (pipeline_mask t1) = ncols (pipeline_mask t2)"
  shows "aper_mask t1 = aper_mask t2"
proof (rule arr2_eqI)
  show "wf2 (aper_mask t1)" "wf2 (aper_mask t2)" using assms aper_mask_wf by blast+
  show "nrows (aper_mask t1) = nrows (aper_mask t2)" "ncols (aper_mask t1) = ncols (aper_mask t2)"
    using assms by (simp_all add: aper_mask_nrows aper_mask_ncols)
next
  fix i j assume "i < nrows (aper_mask t1)" "j < ncols (aper_mask t1)"
  then have ij: "i < nrows (pipeline_mask t1)" "j < ncols (pipeline_mask t1)"
    by (simp_all add: aper_mask_nrows aper_mask_ncols)
  then have ij2: "i < nrows (pipeline_mask t2)" "j < ncols (pipeline_mask t2)"
    using assms by simp_all
  show "cell (aper_mask t1) i j = cell (aper_mask t2) i j"
    using aper_mask_interior[OF assms(1) ij] aper_mask_interior[OF assms(2) ij2] assms(3,4) by simp
qed

section \<open>Counting the cells of the inner aperture\<close>

lemma count_concat:
  "length (filter P (concat xss)) = sum_list (map (\<lambda>xs. length (filter P xs)) xss)"
  by (induction xss) simp_all

lemma count_slice: "length (filter (\<lambda>j. Suc 0 \<le> j \<and> Suc j < n) [0..<n]) = n - 2"
proof -
  have "{i. i < length [0..<n] \<and> Suc 0 \<le> [0..<n] ! i \<and> Suc ([0..<n] ! i) < n} = {1..<n - 1}"
    by auto
  then show ?thesis by (simp only: length_filter_conv_card) simp
qed

lemma count_interior_row:
  "length (filter (interior h w i) [0..<w]) = (if Suc 0 \<le> i \<and> Suc i < h then w - 2 else 0)"
proof (cases "Suc 0 \<le> i \<and> Suc i < h")
  case True
  then have "interior h w i = (\<lambda>j. Suc 0 \<le> j \<and> Suc j < w)"
    by (auto simp: interior_def)
  then show ?thesis using True by (simp add: count_slice)
next
  case False
  then have "interior h w i = (\<lambda>j. False)"
    by (auto simp: interior_def)
  then show ?thesis using False by auto
qed

lemma count_interior:
  "length (filter (\<lambda>b. b) (concat (map (\<lambda>i. map (\<lambda>j. interior h w i j) [0..<w]) [0..<h])))
   = (h - 2) * (w - 2)"
proof -
  have "length (filter (\<lambda>b. b) (concat (map (\<lambda>i. map (\<lambda>j. interior h w i j) [0..<w]) [0..<h])))
      = sum_list (map (\<lambda>i. length (filter (interior h w i) [0..<w])) [0..<h])"
    by (simp add: count_concat comp_def filter_map)
  also have "\<dots> = sum_list (map (\<lambda>i. if Suc 0 \<le> i \<and> Suc i < h then w - 2 else 0) [0..<h])"
    by (simp only: count_interior_row)
  also have "\<dots> = sum_list (map (\<lambda>i. w - 2) (filter (\<lambda>i. Suc 0 \<le> i \<and> Suc i < h) [0..<h]))"
    by (simp only: sum_list_map_filter')
  also have "\<dots> = length (filter (\<lambda>i. Suc 0 \<le> i \<and> Suc i < h) [0..<h]) * (w - 2)"
    by (simp only: sum_list_triv) simp
  also have "\<dots> = (h - 2) * (w - 2)"
    by (simp only: count_slice)
  finally show ?thesis .
qed

lemma aper_mask_canonical:
  assumes "wf2 (pipeline_mask t)"
  shows "aper_mask t = Arr2 (nrows (pipeline_mask t)) (ncols (pipeline_mask t))
     (map (\<lambda>i. map (\<lambda>j. interior (nrows (pipeline_mask t)) (ncols (pipeline_mask t)) i j)
                [0..<ncols (pipeline_mask t)]) [0..<nrows (pipeline_mask t)])"
    (is "_ = ?c")
proof (rule arr2_eqI)
  show "wf2 (aper_mask t)" by (rule aper_mask_wf[OF assms])
  show "wf2 ?c" by (simp add: wf2_def rect_def list_all_iff)
  show "nrows (aper_mask t) = nrows ?c" "ncols (aper_mask t) = ncols ?c"
    by (simp_all add: aper_mask_nrows aper_mask_ncols)
next
  fix i j assume "i < nrows (aper_mask t)" "j < ncols (aper_mask t)"
  then have ij: "i < nrows (pipeline_mask t)" "j < ncols (pipeline_mask t)"
    by (simp_all add: aper_mask_nrows aper_mask_ncols)
  show "cell (aper_mask t) i j = cell ?c i j"
    using aper_mask_interior[OF assms ij] ij by (simp add: cell_def)
qed

lemma np_sum_aper_mask:
  assumes "wf2 (pipeline_mask t)"
  shows "np_sum (aper_mask t) = (nrows (pipeline_mask t) - 2) * (ncols (pipeline_mask t) - 2)"
  by (simp add: np_sum_def aper_mask_canonical[OF assms] count_interior)

lemma flux_aggregator_returns:
  assumes "nrows m = nrows3 (flux t)" "ncols m = ncols3 (flux t)" "0 < np_sum m"
  shows "flux_aggregator t m = Inr \<lparr>lc_time = time t,
           lc_flux = map (\<lambda>fr. fdiv (fsum (masked m fr)) (np_sum m)) (frames (flux t))\<rparr>"
  using assms by (simp add: flux_aggregator_def to_lightcurve_def lc_div_def comp_def)

section \<open>Masks of eight cells and of one cell\<close>

lemma no_nan_cell3:
  assumes "wf3 c" "no_nan c" "k < ntime c" "i < nrows3 c" "j < ncols3 c"
  shows "\<not> isnan (cell3 c k i j)"
proof -
  have "k < length (frames c)" using assms(1,3) by (simp add: wf3_def)
  moreover have "rect (nrows3 c) (ncols3 c) (frames c ! k)"
    using assms(1,3) by (simp add: wf3_def list_all_length)
  then have "i < length (frames c ! k)" "j < length (frames c ! k ! i)"
    using assms(4,5) by (simp_all add: rect_def list_all_length)
  ultimately show ?thesis
    using assms(2) by (simp add: no_nan_def cell3_def list_all_length)
qed

lemma ring3_cell: "i < 3 \<Longrightarrow> j < 3 \<Longrightarrow> cell ring3 i j = (\<not> interior 3 3 i j)"
proof -
  assume "i < 3" "j < 3"
  then have "(i = 0 \<or> i = 1 \<or> i = 2) \<and> (j = 0 \<or> j = 1 \<or> j = 2)" by arith
  then show ?thesis by (auto simp: ring3_def cell_def interior_def)
qed

lemma select_none:
  "length bs = length xs \<Longrightarrow> filter (\<lambda>b. b) bs = [] \<Longrightarrow> map snd (filter fst (zip bs xs)) = []"
  by (induction bs xs rule: list_induct2) (auto split: if_splits)

lemma select_single:
  "length bs = length xs \<Longrightarrow> length (filter (\<lambda>b. b) bs) = 1 \<Longrightarrow> k < length bs \<Longrightarrow> bs ! k
   \<Longrightarrow> map snd (filter fst (zip bs xs)) = [xs ! k]"
proof (induction bs xs arbitrary: k rule: list_induct2)
  case Nil
  then show ?case by simp
next
  case (Cons b bs x xs)
  show ?case
  proof (cases b)
    case True
    with Cons.prems(1) have e: "filter (\<lambda>b. b) bs = []" by simp
    have "k = 0"
    proof (rule ccontr)
      assume "k \<noteq> 0"
      then obtain k' where "k = Suc k'" by (cases k) auto
      with Cons.prems(2,3) have "k' < length bs" "bs ! k'" by simp_all
      then have "\<exists>b\<in>set bs. b" using nth_mem by blast
      with e show False by (auto simp: filter_empty_conv)
    qed
    with True e Cons.hyps show ?thesis by (simp add: select_none)
  next
    case False
    with Cons.prems(3) obtain k' where k: "k = Suc k'" by (cases k) auto
    with False Cons.prems Cons.IH[of k'] show ?thesis by simp
  qed
qed

lemma concat_nth_rect:
  "list_all (\<lambda>r. length r = w) rs \<Longrightarrow> i < length rs \<Longrightarrow> j < w
   \<Longrightarrow> i * w + j < length (concat rs) \<and> concat rs ! (i * w + j) = rs ! i ! j"
proof (induction rs arbitrary: i)
  case Nil
  then show ?case by simp
next
  case (Cons r rs)
  show ?case
  proof (cases i)
    case 0
    with Cons.prems show ?thesis by (simp add: nth_append)
  next
    case (Suc i')
    with Cons.prems Cons.IH[of i'] show ?thesis by (simp add: nth_append)
  qed
qed

lemma length_concat_rect:
  "list_all (\<lambda>r. length r = w) rs \<Longrightarrow> length (concat rs) = length rs * w"
  by (induction rs) simp_all

lemma masked_single:
  assumes "rect h w (cells m)" "rect h w fr" "np_sum m = 1" "i < h" "j < w" "cell m i j"
  shows "masked m fr = [fr ! i ! j]"
proof -
  have l: "length (concat (cells m)) = length (concat fr)"
    using assms(1,2) length_concat_rect[of w "cells m"] length_concat_rect[of w fr]
    by (simp add: rect_def)
  have a: "i * w + j < length (concat (cells m))" "concat (cells m) ! (i * w + j)"
    using concat_nth_rect[of w "cells m" i j] assms by (simp_all add: rect_def cell_def)
  have b: "concat fr ! (i * w + j) = fr ! i ! j"
    using concat_nth_rect[of w fr i j] assms by (simp add: rect_def)
  show ?thesis
    unfolding masked_def
    using select_single[OF l _ a] assms(3) b by (simp add: np_sum_def)
qed

lemma fsum_single: "fsum [x] = x"
  by (cases x) (simp_all add: fsum_def)

lemma fdiv_one: "fdiv x (Suc 0) = x"
  by (cases x) simp_all

section \<open>Subtraction and the store\<close>

lemma fneg_fsub: "fneg (fsub x y) = fsub y x"
  by (cases x; cases y) (simp_all add: fsub_def)

lemma map_fneg_fsub:
  "length xs = length ys \<Longrightarrow> map fneg (map2 fsub xs ys) = map2 fsub ys xs"
  by (induction xs ys rule: list_induct2) (simp_all add: fneg_fsub)

lemma fsub_Val: "fsub (Val x) (Val y) = Val (x - y)"
  by (simp add: fsub_def)

lemma fsub_isnan: "isnan x \<or> isnan y \<Longrightarrow> isnan (fsub x y)"
  by (cases x; cases y) (simp_all add: fsub_def)

lemma read_tpf_append:
  "read_tpf h r = Some t \<Longrightarrow> read_tpf (h @ xs) r = Some t"
  by (auto simp: read_tpf_def nth_append split: if_splits)

lemma setitem_interior_at_fresh:
  "setitem_interior_at (length h) (h @ [BoolArr m]) = h @ [BoolArr (setitem_interior m)]"
  by (simp add: setitem_interior_at_def)

lemma read_mask_fresh: "read_mask (h @ [BoolArr m]) (length h) = Some m"
  by (simp add: read_mask_def)

lemma cleaner_on_heap_unfold:
  assumes "read_tpf h r = Some t"
  shows "cleaner_on_heap ro r h =
     (case back_mask t of
        Inl e \<Rightarrow> (Inl e, h @ [BoolArr (aper_mask t)])
      | Inr bm \<Rightarrow> (photometry ro t (aper_mask t) bm, h @ [BoolArr (aper_mask t), BoolArr bm]))"
proof -
  have "read_tpf (h @ [BoolArr (aper_mask t)]) r = Some t"
    by (rule read_tpf_append[OF assms])
  then show ?thesis
    using assms
    by (simp add: cleaner_on_heap_def alloc_def setitem_interior_at_fresh read_mask_fresh
        aper_mask_def[symmetric] back_mask_def[symmetric] split: sum.splits)
qed

lemma cleaner_on_heap_result:
  "read_tpf h r = Some t \<Longrightarrow> fst (cleaner_on_heap ro r h) = my_custom_lc_cleaner ro t"
  by (simp add: cleaner_on_heap_unfold my_custom_lc_cleaner_def split: sum.splits)

lemma cleaner_on_heap_extends:
  "\<exists>xs. snd (cleaner_on_heap ro r h) = h @ xs"
proof (cases "read_tpf h r")
  case None
  then show ?thesis by (simp add: cleaner_on_heap_def)
next
  case (Some t)
  then show ?thesis by (simp add: cleaner_on_heap_unfold split: sum.splits)
qed

text \<open>
  The slice assignment does change the array it is aimed at: through the address of the
  Source Mask it would have set the centre cell of the all-false mask.
\<close>

lemma setitem_interior_at_writes:
  "setitem_interior_at (pipeline_mask_at tpf3_obj) heap3 \<noteq> heap3"
  by code_simp

lemma read_tpf_append_None:
  "read_tpf h r = None \<Longrightarrow> read_tpf (snd (cleaner_on_heap ro r h)) r = None"
  by (simp add: cleaner_on_heap_def)

section \<open>The Aperture Partitioner\<close>

text \<open>
  Claim C1, as the spec has it: the Background Mask is disjoint from the pipeline-provided
  Source Mask. The routine reads the Source Mask for its shape only, so this fails as soon
  as the Source Mask has a true cell on the border: under the all-true 3 by 3 mask the
  Background Mask is the border ring, and both are true at (0,0).
\<close>

theorem back_mask_meets_source_mask:
  "back_mask tpf3 = Inr ring3 \<and> \<not> disjoint_masks ring3 (pipeline_mask tpf3)"
  by code_simp

text \<open>
  Claim C1, amended: for every Source Mask whose true cells all lie in the interior (none
  in the first or last row or column) and every Pixel Cube of the same spatial shape, the
  Background Mask is disjoint from the Source Mask.
\<close>

theorem back_mask_disjoint_from_inner_source_mask:
  assumes "wf_tpf t" and "inside_border (pipeline_mask t)"
  shows "\<exists>bm. back_mask t = Inr bm \<and> disjoint_masks bm (pipeline_mask t)"
proof -
  have wfp: "wf2 (pipeline_mask t)" using assms(1) by (simp add: wf_tpf_def)
  obtain bm where bm: "back_mask t = Inr bm"
    "nrows bm = nrows (pipeline_mask t)" "ncols bm = ncols (pipeline_mask t)"
    and c: "\<forall>i<nrows (pipeline_mask t). \<forall>j<ncols (pipeline_mask t).
          cell bm i j = (\<not> cell (aper_mask t) i j \<and> \<not> all_time_invalid (flux t) i j)"
    using back_mask_cells[OF assms(1)] by blast
  have "\<not> (cell bm i j \<and> cell (pipeline_mask t) i j)"
    if "i < nrows (pipeline_mask t)" "j < ncols (pipeline_mask t)" for i j
    using that c assms(2) aper_mask_interior[OF wfp that] by (auto simp: inside_border_iff)
  then have "disjoint_masks bm (pipeline_mask t)"
    by (simp add: disjoint_masks_iff bm)
  with bm(1) show ?thesis by blast
qed

theorem back_mask_disjoint_from_inner_source_mask_witness:
  "wf_tpf tpf_nan \<and> inside_border (pipeline_mask tpf_nan)
   \<and> (\<exists>bm. back_mask tpf_nan = Inr bm \<and> disjoint_masks bm (pipeline_mask tpf_nan))"
proof -
  have h1: "wf_tpf tpf_nan" by code_simp
  have h2: "inside_border (pipeline_mask tpf_nan)" by code_simp
  from back_mask_disjoint_from_inner_source_mask[OF h1 h2] h1 h2 show ?thesis by simp
qed

text \<open>
  Claim C3, as the spec has it: the inner aperture is the Source Mask eroded by one pixel
  on each border, and the Background Mask is the set of non-source, non-missing locations.
  Under a Source Mask with no true cell the eroded mask is empty and every location of the
  NaN-free cube is non-source and non-missing; the routine still makes the centre the
  inner aperture and the border ring the Background Mask.
\<close>

theorem aper_mask_is_not_eroded_source_mask:
  "aper_mask tpf3_dark \<noteq> eroded (pipeline_mask tpf3_dark)
   \<and> back_mask tpf3_dark \<noteq> Inr (non_source_non_missing tpf3_dark)"
  by code_simp

text \<open>
  Claim C3, amended: for every Source Mask and Pixel Cube of the same spatial shape, the
  inner aperture is true exactly at the interior cells of the grid, whatever the cells
  of the Source Mask are; it equals the Source Mask eroded by one pixel on each border when
  the Source Mask is true at every interior cell. The Background Mask is true exactly at
  the locations outside the inner aperture that are not missing (not NaN in every time
  sample).
\<close>

theorem aper_mask_is_interior_of_shape:
  assumes "wf_tpf t"
  shows "(\<forall>i<nrows (pipeline_mask t). \<forall>j<ncols (pipeline_mask t).
            cell (aper_mask t) i j = interior (nrows (pipeline_mask t)) (ncols (pipeline_mask t)) i j)
       \<and> (covers_interior (pipeline_mask t) \<longrightarrow> aper_mask t = eroded (pipeline_mask t))
       \<and> (\<exists>bm. back_mask t = Inr bm
             \<and> nrows bm = nrows (pipeline_mask t) \<and> ncols bm = ncols (pipeline_mask t)
             \<and> (\<forall>i<nrows (pipeline_mask t). \<forall>j<ncols (pipeline_mask t).
                   cell bm i j = (\<not> cell (aper_mask t) i j \<and> \<not> all_time_invalid (flux t) i j)))"
proof -
  let ?pm = "pipeline_mask t"
  have wfp: "wf2 ?pm" using assms by (simp add: wf_tpf_def)
  have 1: "\<forall>i<nrows ?pm. \<forall>j<ncols ?pm. cell (aper_mask t) i j = interior (nrows ?pm) (ncols ?pm) i j"
    using aper_mask_interior[OF wfp] by blast
  have 2: "aper_mask t = eroded ?pm" if cov: "covers_interior ?pm"
  proof (rule arr2_eqI)
    show "wf2 (aper_mask t)" by (rule aper_mask_wf[OF wfp])
    show "wf2 (eroded ?pm)" by (rule eroded_wf)
    show "nrows (aper_mask t) = nrows (eroded ?pm)" by (simp add: aper_mask_nrows eroded_def)
    show "ncols (aper_mask t) = ncols (eroded ?pm)" by (simp add: aper_mask_ncols eroded_def)
  next
    fix i j assume "i < nrows (aper_mask t)" "j < ncols (aper_mask t)"
    then have ij: "i < nrows ?pm" "j < ncols ?pm" by (simp_all add: aper_mask_nrows aper_mask_ncols)
    show "cell (aper_mask t) i j = cell (eroded ?pm) i j"
      using cov ij aper_mask_interior[OF wfp ij] by (auto simp: eroded_cell covers_interior_iff)
  qed
  have 3: "\<exists>bm. back_mask t = Inr bm
             \<and> nrows bm = nrows ?pm \<and> ncols bm = ncols ?pm
             \<and> (\<forall>i<nrows ?pm. \<forall>j<ncols ?pm.
                   cell bm i j = (\<not> cell (aper_mask t) i j \<and> \<not> all_time_invalid (flux t) i j))"
    using back_mask_cells[OF assms] by blast
  from 1 2 3 show ?thesis by blast
qed

theorem aper_mask_is_interior_of_shape_witness:
  "wf_tpf tpf3 \<and> covers_interior (pipeline_mask tpf3)
   \<and> aper_mask tpf3 = eroded (pipeline_mask tpf3)
   \<and> cell (aper_mask tpf3) 1 1 = interior 3 3 1 1
   \<and> cell (aper_mask tpf3) 0 2 = interior 3 3 0 2
   \<and> (\<exists>bm. back_mask tpf3 = Inr bm \<and> nrows bm = 3 \<and> ncols bm = 3
         \<and> cell bm 1 1 = (\<not> cell (aper_mask tpf3) 1 1 \<and> \<not> all_time_invalid (flux tpf3) 1 1)
         \<and> cell bm 0 2 = (\<not> cell (aper_mask tpf3) 0 2 \<and> \<not> all_time_invalid (flux tpf3) 0 2))"
proof -
  have h1: "wf_tpf tpf3" by code_simp
  have h2: "covers_interior (pipeline_mask tpf3)" by code_simp
  have n: "nrows (pipeline_mask tpf3) = 3" "ncols (pipeline_mask tpf3) = 3" by code_simp+
  from aper_mask_is_interior_of_shape[OF h1] h1 h2 show ?thesis
    unfolding n by auto
qed

text \<open>
  Claim C4: for every Source Mask of shape H by W with H and W at least 3 and every Pixel
  Cube of the same spatial shape, the Background Mask and the inner aperture are disjoint,
  and the Background Mask is true exactly at the locations outside the inner aperture
  that are not NaN in all time samples.
\<close>

theorem back_mask_is_complement_of_aper_mask_and_all_nan:
  assumes "wf_tpf t" and "3 \<le> nrows (pipeline_mask t)" and "3 \<le> ncols (pipeline_mask t)"
  shows "\<exists>bm. back_mask t = Inr bm \<and> disjoint_masks bm (aper_mask t)
           \<and> (\<forall>i<nrows (pipeline_mask t). \<forall>j<ncols (pipeline_mask t).
                 cell bm i j = (\<not> cell (aper_mask t) i j
                                \<and> \<not> (\<forall>k<ntime (flux t). isnan (cell3 (flux t) k i j))))"
proof -
  obtain bm where bm: "back_mask t = Inr bm"
    "nrows bm = nrows (pipeline_mask t)" "ncols bm = ncols (pipeline_mask t)"
    and c: "\<forall>i<nrows (pipeline_mask t). \<forall>j<ncols (pipeline_mask t).
          cell bm i j = (\<not> cell (aper_mask t) i j \<and> \<not> all_time_invalid (flux t) i j)"
    using back_mask_cells[OF assms(1)] by blast
  have "disjoint_masks bm (aper_mask t)"
    using c by (auto simp: disjoint_masks_iff bm)
  with bm(1) c show ?thesis by (auto simp: all_time_invalid_iff)
qed

theorem back_mask_is_complement_of_aper_mask_and_all_nan_witness:
  "wf_tpf tpf_nan \<and> 3 \<le> nrows (pipeline_mask tpf_nan) \<and> 3 \<le> ncols (pipeline_mask tpf_nan)
   \<and> (\<exists>bm. back_mask tpf_nan = Inr bm \<and> disjoint_masks bm (aper_mask tpf_nan)
         \<and> (\<forall>i<nrows (pipeline_mask tpf_nan). \<forall>j<ncols (pipeline_mask tpf_nan).
               cell bm i j = (\<not> cell (aper_mask tpf_nan) i j
                              \<and> \<not> (\<forall>k<ntime (flux tpf_nan). isnan (cell3 (flux tpf_nan) k i j)))))"
proof -
  have h1: "wf_tpf tpf_nan" by code_simp
  have h2: "3 \<le> nrows (pipeline_mask tpf_nan)" by code_simp
  have h3: "3 \<le> ncols (pipeline_mask tpf_nan)" by code_simp
  from back_mask_is_complement_of_aper_mask_and_all_nan[OF h1 h2 h3] h1 h2 h3
  show ?thesis by blast
qed

text \<open>
  Claim C7: for every Source Mask of shape H by W with H and W at least 1, grids of width
  or height at most 2 included, and a Pixel Cube of the same spatial shape, the Aperture
  Partitioner ends without an error and returns a Background Mask of the same shape; on a
  grid of width or height at most 2 the inner aperture has no true cell. (Every function
  of the model is total, so the routine terminates.)
\<close>

theorem back_mask_total_on_any_shape:
  assumes "wf_tpf t" and "1 \<le> nrows (pipeline_mask t)" and "1 \<le> ncols (pipeline_mask t)"
  shows "(\<exists>bm. back_mask t = Inr bm \<and> wf2 bm
            \<and> nrows bm = nrows (pipeline_mask t) \<and> ncols bm = ncols (pipeline_mask t))
       \<and> wf2 (aper_mask t)
       \<and> (nrows (pipeline_mask t) \<le> 2 \<or> ncols (pipeline_mask t) \<le> 2
            \<longrightarrow> np_sum (aper_mask t) = 0)"
proof -
  have wfp: "wf2 (pipeline_mask t)" using assms(1) by (simp add: wf_tpf_def)
  have "\<exists>bm. back_mask t = Inr bm \<and> wf2 bm
            \<and> nrows bm = nrows (pipeline_mask t) \<and> ncols bm = ncols (pipeline_mask t)"
    using back_mask_cells[OF assms(1)] by blast
  moreover have "wf2 (aper_mask t)" by (rule aper_mask_wf[OF wfp])
  moreover have "np_sum (aper_mask t) = 0"
    if "nrows (pipeline_mask t) \<le> 2 \<or> ncols (pipeline_mask t) \<le> 2"
    using that by (auto simp: np_sum_aper_mask[OF wfp])
  ultimately show ?thesis by blast
qed

theorem back_mask_total_on_any_shape_witness:
  "wf_tpf tpf_thin \<and> 1 \<le> nrows (pipeline_mask tpf_thin) \<and> 1 \<le> ncols (pipeline_mask tpf_thin)
   \<and> ncols (pipeline_mask tpf_thin) \<le> 2
   \<and> (\<exists>bm. back_mask tpf_thin = Inr bm \<and> wf2 bm
         \<and> nrows bm = nrows (pipeline_mask tpf_thin) \<and> ncols bm = ncols (pipeline_mask tpf_thin))
   \<and> np_sum (aper_mask tpf_thin) = 0"
proof -
  have h1: "wf_tpf tpf_thin" by code_simp
  have h2: "1 \<le> nrows (pipeline_mask tpf_thin)" by code_simp
  have h3: "1 \<le> ncols (pipeline_mask tpf_thin)" by code_simp
  have h4: "ncols (pipeline_mask tpf_thin) \<le> 2" by code_simp
  from back_mask_total_on_any_shape[OF h1 h2 h3] h1 h2 h3 h4 show ?thesis by blast
qed

text \<open>
  Claim C9: for two Source Masks of the same shape and one Pixel Cube, the inner apertures
  are equal and the Background Masks are equal: the derived masks depend on the shape of
  the Source Mask and on the cube, never on which cells of the Source Mask are true.
\<close>

theorem masks_depend_on_shape_only:
  assumes "wf2 (pipeline_mask t1)" and "wf2 (pipeline_mask t2)"
    and "nrows (pipeline_mask t1) = nrows (pipeline_mask t2)"
    and "ncols (pipeline_mask t1) = ncols (pipeline_mask t2)"
    and "flux t1 = flux t2"
  shows "aper_mask t1 = aper_mask t2 \<and> back_mask t1 = back_mask t2"
  using aper_mask_shape_only[OF assms(1-4)] assms(5) by (simp add: back_mask_def)

theorem masks_depend_on_shape_only_witness:
  "wf2 (pipeline_mask tpf3) \<and> wf2 (pipeline_mask tpf3_dark)
   \<and> nrows (pipeline_mask tpf3) = nrows (pipeline_mask tpf3_dark)
   \<and> ncols (pipeline_mask tpf3) = ncols (pipeline_mask tpf3_dark)
   \<and> flux tpf3 = flux tpf3_dark
   \<and> pipeline_mask tpf3 \<noteq> pipeline_mask tpf3_dark
   \<and> aper_mask tpf3 = aper_mask tpf3_dark \<and> back_mask tpf3 = back_mask tpf3_dark"
proof -
  have h1: "wf2 (pipeline_mask tpf3)" by code_simp
  have h2: "wf2 (pipeline_mask tpf3_dark)" by code_simp
  have h3: "nrows (pipeline_mask tpf3) = nrows (pipeline_mask tpf3_dark)" by code_simp
  have h4: "ncols (pipeline_mask tpf3) = ncols (pipeline_mask tpf3_dark)" by code_simp
  have h5: "flux tpf3 = flux tpf3_dark" by (simp add: tpf3_def tpf3_dark_def)
  have h6: "pipeline_mask tpf3 \<noteq> pipeline_mask tpf3_dark" by code_simp
  from masks_depend_on_shape_only[OF h1 h2 h3 h4 h5] h1 h2 h3 h4 h5 h6 show ?thesis by blast
qed

text \<open>
  Claim C8: for every Source Mask of shape H by W with H and W at least 3, the inner
  aperture has exactly (H-2)*(W-2) true cells, which is at least 1, so the divisor of the
  source-aperture series is positive and its Flux Aggregator does not end in the division
  by zero (the division of a light curve is modelled from the spec).
\<close>

theorem aper_mask_sum_positive:
  assumes "wf_tpf t" and "3 \<le> nrows (pipeline_mask t)" and "3 \<le> ncols (pipeline_mask t)"
  shows "np_sum (aper_mask t) = (nrows (pipeline_mask t) - 2) * (ncols (pipeline_mask t) - 2)
       \<and> 1 \<le> np_sum (aper_mask t)
       \<and> (\<exists>lc. flux_aggregator t (aper_mask t) = Inr lc)
       \<and> flux_aggregator t (aper_mask t) \<noteq> Inl ZeroDivisionError"
proof -
  have wfp: "wf2 (pipeline_mask t)" using assms(1) by (simp add: wf_tpf_def)
  have s: "np_sum (aper_mask t) = (nrows (pipeline_mask t) - 2) * (ncols (pipeline_mask t) - 2)"
    by (rule np_sum_aper_mask[OF wfp])
  have "1 \<le> nrows (pipeline_mask t) - 2" "1 \<le> ncols (pipeline_mask t) - 2"
    using assms(2,3) by simp_all
  then have "1 * 1 \<le> (nrows (pipeline_mask t) - 2) * (ncols (pipeline_mask t) - 2)"
    by (rule mult_le_mono)
  then have p: "1 \<le> np_sum (aper_mask t)" using s by simp
  have "nrows (aper_mask t) = nrows3 (flux t)" "ncols (aper_mask t) = ncols3 (flux t)"
    using assms(1) by (simp_all add: wf_tpf_def aper_mask_nrows aper_mask_ncols)
  then have "\<exists>lc. flux_aggregator t (aper_mask t) = Inr lc"
    using flux_aggregator_returns[of "aper_mask t" t] p by simp
  with s p show ?thesis by auto
qed

theorem aper_mask_sum_positive_witness:
  "wf_tpf tpf_nan \<and> 3 \<le> nrows (pipeline_mask tpf_nan) \<and> 3 \<le> ncols (pipeline_mask tpf_nan)
   \<and> np_sum (aper_mask tpf_nan) = 2
   \<and> (\<exists>lc. flux_aggregator tpf_nan (aper_mask tpf_nan) = Inr lc)
   \<and> flux_aggregator tpf_nan (aper_mask tpf_nan) \<noteq> Inl ZeroDivisionError"
proof -
  have h1: "wf_tpf tpf_nan" by code_simp
  have h2: "3 \<le> nrows (pipeline_mask tpf_nan)" by code_simp
  have h3: "3 \<le> ncols (pipeline_mask tpf_nan)" by code_simp
  have n: "nrows (pipeline_mask tpf_nan) = 3" "ncols (pipeline_mask tpf_nan) = 4" by code_simp+
  from aper_mask_sum_positive[OF h1 h2 h3] h1 h2 h3 show ?thesis unfolding n by simp
qed

text \<open>
  Claim C2, as the spec has it: for the 3-cadence 3 by 3 cube with no invalid pixel and the
  all-true Source Mask the Background Mask is all-false. The inner aperture is the centre
  cell alone, and the Background Mask is its complement, the eight border cells.
\<close>

theorem back_mask_of_full_3x3_not_empty:
  "wf_tpf tpf3 \<and> pipeline_mask tpf3 = const_mask 3 3 True \<and> ntime (flux tpf3) = 3
   \<and> no_nan (flux tpf3) \<and> back_mask tpf3 \<noteq> Inr (const_mask 3 3 False)"
  by code_simp

text \<open>
  Claim C2, amended: for a 3-cadence 3 by 3 Pixel Cube with no invalid pixel and an
  all-true 3 by 3 Source Mask, the Background Mask is true at the eight border cells and
  false at the centre; its count of true cells is 8, so the Flux Aggregator applied to it
  divides by 8 and returns a Time Series, the mean of the eight border fluxes per cadence.
\<close>

theorem back_mask_of_full_3x3_is_ring:
  assumes "wf_tpf t" and "pipeline_mask t = const_mask 3 3 True"
    and "ntime (flux t) = 3" and "no_nan (flux t)"
  shows "back_mask t = Inr ring3 \<and> np_sum ring3 = 8
       \<and> flux_aggregator t ring3 = Inr \<lparr>lc_time = time t,
            lc_flux = map (\<lambda>fr. fdiv (fsum (masked ring3 fr)) 8) (frames (flux t))\<rparr>"
proof -
  have sh: "nrows (pipeline_mask t) = 3" "ncols (pipeline_mask t) = 3"
    using assms(2) by (simp_all add: const_mask_def)
  have wfp: "wf2 (pipeline_mask t)" and wfc: "wf3 (flux t)"
    and shc: "nrows3 (flux t) = 3" "ncols3 (flux t) = 3"
    using assms(1) sh by (simp_all add: wf_tpf_def)
  obtain bm where bm: "back_mask t = Inr bm" "wf2 bm" "nrows bm = 3" "ncols bm = 3"
    and c: "\<forall>i<3. \<forall>j<3.
          cell bm i j = (\<not> cell (aper_mask t) i j \<and> \<not> all_time_invalid (flux t) i j)"
    using back_mask_cells[OF assms(1)] unfolding sh by blast
  have "bm = ring3"
  proof (rule arr2_eqI)
    show "wf2 bm" by (rule bm(2))
    show "wf2 ring3" by code_simp
    show "nrows bm = nrows ring3" "ncols bm = ncols ring3"
      using bm(3,4) by (simp_all add: ring3_def)
  next
    fix i j assume "i < nrows bm" "j < ncols bm"
    then have ij: "i < 3" "j < 3" using bm(3,4) by simp_all
    have "\<not> isnan (cell3 (flux t) 0 i j)"
      using no_nan_cell3[OF wfc assms(4), of 0 i j] assms(3) shc ij by simp
    then have "\<not> all_time_invalid (flux t) i j"
      using assms(3) by (auto simp: all_time_invalid_iff intro!: exI[of _ 0])
    moreover have "cell (aper_mask t) i j = interior 3 3 i j"
      using aper_mask_interior[OF wfp, of i j] ij sh by simp
    ultimately show "cell bm i j = cell ring3 i j"
      using c ij by (simp add: ring3_cell)
  qed
  moreover have s: "np_sum ring3 = 8" by code_simp
  moreover have "flux_aggregator t ring3 = Inr \<lparr>lc_time = time t,
            lc_flux = map (\<lambda>fr. fdiv (fsum (masked ring3 fr)) 8) (frames (flux t))\<rparr>"
    using flux_aggregator_returns[of ring3 t] shc s by (simp add: ring3_def)
  ultimately show ?thesis using bm(1) by simp
qed


theorem back_mask_of_full_3x3_is_ring_witness:
  "wf_tpf tpf3 \<and> pipeline_mask tpf3 = const_mask 3 3 True \<and> ntime (flux tpf3) = 3
   \<and> no_nan (flux tpf3) \<and> back_mask tpf3 = Inr ring3 \<and> np_sum ring3 = 8
   \<and> flux_aggregator tpf3 ring3
       = Inr \<lparr>lc_time = [0, 1, 2], lc_flux = [Val 5, Val 15, Val 25]\<rparr>"
proof -
  have h1: "wf_tpf tpf3" by code_simp
  have h2: "pipeline_mask tpf3 = const_mask 3 3 True" by (simp add: tpf3_def)
  have h3: "ntime (flux tpf3) = 3" by code_simp
  have h4: "no_nan (flux tpf3)" by code_simp
  have e: "\<lparr>lc_time = time tpf3,
            lc_flux = map (\<lambda>fr. fdiv (fsum (masked ring3 fr)) 8) (frames (flux tpf3))\<rparr>
         = \<lparr>lc_time = [0, 1, 2], lc_flux = [Val 5, Val 15, Val 25]\<rparr>" by code_simp
  from back_mask_of_full_3x3_is_ring[OF h1 h2 h3 h4] h1 h2 h3 h4 show ?thesis unfolding e by simp
qed

section \<open>The Flux Aggregator\<close>

text \<open>
  Claim C5: for every Pixel Cube and every mask of the same spatial shape with exactly one
  true cell, at (i, j), the Flux Aggregator (aperture photometry, then division by the
  count of true cells, here 1) yields at every cadence the flux of that cell unchanged.
\<close>

theorem flux_aggregator_single_cell:
  assumes "wf3 (flux t)" and "wf2 m"
    and "nrows m = nrows3 (flux t)" and "ncols m = ncols3 (flux t)"
    and "np_sum m = 1" and "i < nrows m" and "j < ncols m" and "cell m i j"
  shows "flux_aggregator t m
         = Inr \<lparr>lc_time = time t, lc_flux = map (\<lambda>fr. fr ! i ! j) (frames (flux t))\<rparr>"
proof -
  have "fdiv (fsum (masked m fr)) (np_sum m) = fr ! i ! j" if "fr \<in> set (frames (flux t))" for fr
  proof -
    have "rect (nrows m) (ncols m) fr"
      using assms(1,3,4) that by (simp add: wf3_def list_all_iff)
    then have "masked m fr = [fr ! i ! j]"
      using masked_single[of "nrows m" "ncols m" m fr i j] assms(2,5-8) by (simp add: wf2_def)
    then show ?thesis using assms(5) by (simp add: fsum_single fdiv_one)
  qed
  then have "map (\<lambda>fr. fdiv (fsum (masked m fr)) (np_sum m)) (frames (flux t))
           = map (\<lambda>fr. fr ! i ! j) (frames (flux t))"
    by simp
  then show ?thesis
    using flux_aggregator_returns[of m t] assms(3,4,5) by simp
qed

theorem flux_aggregator_single_cell_witness:
  "wf3 (flux tpf3) \<and> wf2 one_cell
   \<and> nrows one_cell = nrows3 (flux tpf3) \<and> ncols one_cell = ncols3 (flux tpf3)
   \<and> np_sum one_cell = 1 \<and> 1 < nrows one_cell \<and> 2 < ncols one_cell \<and> cell one_cell 1 2
   \<and> flux_aggregator tpf3 one_cell
       = Inr \<lparr>lc_time = [0, 1, 2], lc_flux = [Val 6, Val 16, Val 26]\<rparr>"
proof -
  have h1: "wf3 (flux tpf3)" by code_simp
  have h2: "wf2 one_cell" by code_simp
  have h3: "nrows one_cell = nrows3 (flux tpf3)" by code_simp
  have h4: "ncols one_cell = ncols3 (flux tpf3)" by code_simp
  have h5: "np_sum one_cell = 1" by code_simp
  have h6: "1 < nrows one_cell" by code_simp
  have h7: "2 < ncols one_cell" by code_simp
  have h8: "cell one_cell 1 2" by code_simp
  have e: "\<lparr>lc_time = time tpf3, lc_flux = map (\<lambda>fr. fr ! 1 ! 2) (frames (flux tpf3))\<rparr>
         = \<lparr>lc_time = [0, 1, 2], lc_flux = [Val 6, Val 16, Val 26]\<rparr>" by code_simp
  from flux_aggregator_single_cell[OF h1 h2 h3 h4 h5 h6 h7 h8] h1 h2 h3 h4 h5 h6 h7 h8 show ?thesis
    unfolding e by simp
qed

section \<open>The Background Subtractor\<close>

text \<open>
  Claim C6: for two Time Series A and B with the same cadence count and the same time
  stamps, the Background Subtractor returns a series on the time stamps of A whose flux at
  each cadence index is the difference of the fluxes at that index: \<open>x - y\<close> where both
  are finite values \<open>x\<close> and \<open>y\<close>, NaN where either is NaN. Negating A minus B gives
  B minus A: where A minus B is \<open>x - y\<close>, B minus A is \<open>y - x\<close>, which is \<open>- (x - y)\<close>.
\<close>

theorem lc_sub_pointwise_antisymmetric:
  assumes "length (lc_flux A) = length (lc_flux B)" and "lc_time A = lc_time B"
  shows "\<exists>C D. lc_sub A (lc_flux B) = Inr C \<and> lc_sub B (lc_flux A) = Inr D
           \<and> lc_time C = lc_time A \<and> length (lc_flux C) = length (lc_flux A)
           \<and> (\<forall>k<length (lc_flux A). \<forall>x y.
                 lc_flux A ! k = Val x \<and> lc_flux B ! k = Val y
                 \<longrightarrow> lc_flux C ! k = Val (x - y) \<and> lc_flux D ! k = Val (y - x)
                     \<and> lc_flux (lc_neg C) ! k = Val (- (x - y)))
           \<and> (\<forall>k<length (lc_flux A).
                 isnan (lc_flux A ! k) \<or> isnan (lc_flux B ! k) \<longrightarrow> isnan (lc_flux C ! k))
           \<and> (\<forall>k<length (lc_flux A). lc_flux C ! k = fsub (lc_flux A ! k) (lc_flux B ! k))
           \<and> lc_neg C = D"
proof -
  let ?C = "A\<lparr>lc_flux := map2 fsub (lc_flux A) (lc_flux B)\<rparr>"
  let ?D = "B\<lparr>lc_flux := map2 fsub (lc_flux B) (lc_flux A)\<rparr>"
  have 1: "lc_sub A (lc_flux B) = Inr ?C" "lc_sub B (lc_flux A) = Inr ?D"
    using assms(1) by (simp_all add: lc_sub_def)
  have 2: "lc_time ?C = lc_time A" "length (lc_flux ?C) = length (lc_flux A)"
    using assms(1) by simp_all
  have 3: "\<forall>k<length (lc_flux A). lc_flux ?C ! k = fsub (lc_flux A ! k) (lc_flux B ! k)"
    using assms(1) by simp
  have d3: "\<forall>k<length (lc_flux A). lc_flux ?D ! k = fsub (lc_flux B ! k) (lc_flux A ! k)"
    using assms(1) by simp
  have 4: "lc_neg ?C = ?D"
    using assms map_fneg_fsub[of "lc_flux A" "lc_flux B"] by (simp add: lc_neg_def)
  have 5: "\<forall>k<length (lc_flux A). \<forall>x y.
                 lc_flux A ! k = Val x \<and> lc_flux B ! k = Val y
                 \<longrightarrow> lc_flux ?C ! k = Val (x - y) \<and> lc_flux ?D ! k = Val (y - x)
                     \<and> lc_flux (lc_neg ?C) ! k = Val (- (x - y))"
  proof (intro allI impI)
    fix k x y
    assume k: "k < length (lc_flux A)" and v: "lc_flux A ! k = Val x \<and> lc_flux B ! k = Val y"
    have c: "lc_flux ?C ! k = Val (x - y)" using 3 k v by (simp add: fsub_Val)
    have d: "lc_flux ?D ! k = Val (y - x)" using d3 k v by (simp add: fsub_Val)
    have "lc_flux (lc_neg ?C) ! k = Val (- (x - y))"
      unfolding 4 using d by simp
    with c d show "lc_flux ?C ! k = Val (x - y) \<and> lc_flux ?D ! k = Val (y - x)
                     \<and> lc_flux (lc_neg ?C) ! k = Val (- (x - y))" by blast
  qed
  have 6: "\<forall>k<length (lc_flux A).
                 isnan (lc_flux A ! k) \<or> isnan (lc_flux B ! k) \<longrightarrow> isnan (lc_flux ?C ! k)"
    using 3 fsub_isnan by simp
  from 1 2 3 4 5 6 show ?thesis by blast
qed

theorem lc_sub_pointwise_antisymmetric_witness:
  "length (lc_flux lc_a) = length (lc_flux lc_b) \<and> lc_time lc_a = lc_time lc_b
   \<and> lc_sub lc_a (lc_flux lc_b) = Inr \<lparr>lc_time = [0, 1, 2], lc_flux = [Val 3, NaN, NaN]\<rparr>
   \<and> lc_sub lc_b (lc_flux lc_a) = Inr \<lparr>lc_time = [0, 1, 2], lc_flux = [Val (- 3), NaN, NaN]\<rparr>
   \<and> lc_neg \<lparr>lc_time = [0, 1, 2], lc_flux = [Val 3, NaN, NaN]\<rparr>
       = \<lparr>lc_time = [0, 1, 2], lc_flux = [Val (- 3), NaN, NaN]\<rparr>"
proof -
  have h1: "length (lc_flux lc_a) = length (lc_flux lc_b)" by code_simp
  have h2: "lc_time lc_a = lc_time lc_b" by (simp add: lc_a_def lc_b_def)
  have c: "lc_sub lc_a (lc_flux lc_b) = Inr \<lparr>lc_time = [0, 1, 2], lc_flux = [Val 3, NaN, NaN]\<rparr>"
    by code_simp
  have d: "lc_sub lc_b (lc_flux lc_a) = Inr \<lparr>lc_time = [0, 1, 2], lc_flux = [Val (- 3), NaN, NaN]\<rparr>"
    by code_simp
  from lc_sub_pointwise_antisymmetric [OF h1 h2] obtain C D where
    "lc_sub lc_a (lc_flux lc_b) = Inr C" "lc_sub lc_b (lc_flux lc_a) = Inr D" "lc_neg C = D"
    by blast
  with c d have "lc_neg \<lparr>lc_time = [0, 1, 2], lc_flux = [Val 3, NaN, NaN]\<rparr>
       = \<lparr>lc_time = [0, 1, 2], lc_flux = [Val (- 3), NaN, NaN]\<rparr>" by simp
  with h1 h2 c d show ?thesis by blast
qed

section \<open>What the routine leaves unchanged\<close>

text \<open>
  Claim C10: the Background Subtractor changes the flux only: the time values and the
  cadence count of its result are those of the source-aperture series. The routine as a
  whole, run on a store, leaves every array that was in the store before the call as it
  was, the cube and the Source Mask of the target pixel file among them; it only adds
  arrays. (By \<open>cleaner_on_heap_result\<close> the run on the store returns what
  \<open>my_custom_lc_cleaner\<close> returns.)
\<close>

theorem cleaner_frame:
  assumes "lc_sub a ys = Inr c"
  shows "lc_time c = lc_time a \<and> length (lc_flux c) = length (lc_flux a)
       \<and> take (length h) (snd (cleaner_on_heap ro r h)) = h
       \<and> read_tpf (snd (cleaner_on_heap ro r h)) r = read_tpf h r"
proof -
  have 1: "lc_time c = lc_time a \<and> length (lc_flux c) = length (lc_flux a)"
    using assms by (auto simp: lc_sub_def split: if_splits)
  obtain xs where xs: "snd (cleaner_on_heap ro r h) = h @ xs"
    using cleaner_on_heap_extends by blast
  then have 2: "take (length h) (snd (cleaner_on_heap ro r h)) = h" by simp
  have 3: "read_tpf (snd (cleaner_on_heap ro r h)) r = read_tpf h r"
  proof (cases "read_tpf h r")
    case None
    then show ?thesis by (simp add: read_tpf_append_None)
  next
    case (Some t)
    then show ?thesis using xs by (simp add: read_tpf_append)
  qed
  from 1 2 3 show ?thesis by blast
qed

theorem cleaner_frame_witness:
  "lc_sub lc_a (lc_flux lc_b) = Inr \<lparr>lc_time = [0, 1, 2], lc_flux = [Val 3, NaN, NaN]\<rparr>
   \<and> lc_time \<lparr>lc_time = [0, 1, 2], lc_flux = [Val 3, NaN, NaN]\<rparr> = lc_time lc_a
   \<and> length (lc_flux \<lparr>lc_time = [0, 1, 2], lc_flux = [Val 3, NaN, NaN]\<rparr>) = length (lc_flux lc_a)
   \<and> take (length heap3) (snd (cleaner_on_heap (\<lambda>lc. lc) tpf3_obj heap3)) = heap3
   \<and> read_tpf (snd (cleaner_on_heap (\<lambda>lc. lc) tpf3_obj heap3)) tpf3_obj = Some tpf3_dark
   \<and> length (snd (cleaner_on_heap (\<lambda>lc. lc) tpf3_obj heap3)) = 4"
proof -
  have h1: "lc_sub lc_a (lc_flux lc_b) = Inr \<lparr>lc_time = [0, 1, 2], lc_flux = [Val 3, NaN, NaN]\<rparr>"
    by code_simp
  have h2: "read_tpf heap3 tpf3_obj = Some tpf3_dark" by code_simp
  have h3: "length (snd (cleaner_on_heap (\<lambda>lc. lc) tpf3_obj heap3)) = 4" by code_simp
  from cleaner_frame[OF h1, of heap3 "\<lambda>lc. lc" tpf3_obj] h1 h2 h3 show ?thesis by simp
qed

end
